theory Spec2Isabelle
  imports Main
begin

unbundle bit_operations_syntax

section \<open>Python values used by the sources\<close>

text \<open>
  Python integers are unbounded, so they are \<open>int\<close>; \<open>x & 0xFF\<close> and \<open>x >> 4\<close> on a
  Python integer act on the infinite two's complement representation, as \<open>AND\<close> and
  \<open>drop_bit\<close> on \<open>int\<close> do. Strings are \<open>string\<close>; a character stands for the code point
  with its number, so the texts covered are those of code points below 256 (for the one
  method whose result can leave this range, \<open>upper\<close>, see there).

  Exceptions are values. The constructors keep the Python class that is raised:
  \<^item> \<open>ValueError_opcode opcode ir\<close> is the
    \<^verbatim>\<open>ValueError(f"Unknown opcode {opcode:X} in IR={self.IR:02X}")\<close> of \<open>SAP1.step\<close>, with
    the two numbers its message is formatted from;
  \<^item> \<open>ValueError_literal tok\<close> is the \<open>ValueError\<close> that \<open>int\<close> raises on the string \<open>tok\<close>;
  \<^item> \<open>ValueError_unpack n\<close> is the \<open>ValueError\<close> of unpacking \<open>n\<close> values into two names;
  \<^item> \<open>IndexError\<close> and \<open>KeyError k\<close> are the built-in exceptions of list indexing and of
    dictionary lookup (\<open>k\<close> is the missing key);
  \<^item> \<open>TypeError\<close> is the built-in exception of using \<open>None\<close> where a string or an integer
    is needed;
  \<^item> \<open>AsmError msg\<close> is the class \<open>AsmError\<close> defined in \<open>SAP1.py\<close>, with its message.
\<close>

datatype error =
    ValueError_opcode int int
  | ValueError_literal string
  | ValueError_unpack nat
  | IndexError
  | KeyError string
  | TypeError
  | AsmError string

text \<open>\<open>xs[i]\<close> on a Python list: negative indices count from the end, anything out of
  range raises \<open>IndexError\<close>.\<close>

definition list_index :: "'a list \<Rightarrow> int \<Rightarrow> int option" where
  "list_index xs i =
     (let n = int (length xs); j = (if i < 0 then n + i else i)
      in if 0 \<le> j \<and> j < n then Some j else None)"

definition getitem :: "'a list \<Rightarrow> int \<Rightarrow> error + 'a" where
  "getitem xs i = (case list_index xs i of None \<Rightarrow> Inl IndexError | Some j \<Rightarrow> Inr (xs ! nat j))"

definition setitem :: "'a list \<Rightarrow> int \<Rightarrow> 'a \<Rightarrow> error + 'a list" where
  "setitem xs i v = (case list_index xs i of None \<Rightarrow> Inl IndexError | Some j \<Rightarrow> Inr (xs[nat j := v]))"

subsection \<open>Number formatting\<close>

definition hex_char :: "nat \<Rightarrow> char" where
  "hex_char d = ''0123456789ABCDEF'' ! (d mod 16)"

fun hex_digits :: "nat \<Rightarrow> string" where
  "hex_digits n = (if n < 16 then [hex_char n] else hex_digits (n div 16) @ [hex_char (n mod 16)])"

definition dec_char :: "nat \<Rightarrow> char" where
  "dec_char d = ''0123456789'' ! (d mod 10)"

fun dec_digits :: "nat \<Rightarrow> string" where
  "dec_digits n = (if n < 10 then [dec_char n] else dec_digits (n div 10) @ [dec_char (n mod 10)])"

declare hex_digits.simps [simp del] dec_digits.simps [simp del]

text \<open>\<open>format(x, "0wX")\<close>: upper-case hexadecimal, the sign first, then zeros up to the
  width \<open>w\<close>. \<open>format(x, "X")\<close> is the width 0.\<close>

definition fmt_X :: "nat \<Rightarrow> int \<Rightarrow> string" where
  "fmt_X w x =
     (let sign = (if x < 0 then ''-'' else ''''); ds = hex_digits (nat \<bar>x\<bar>)
      in sign @ replicate (w - length sign - length ds) (CHR ''0'') @ ds)"

text \<open>\<open>str(x)\<close>, which is also what \<open>f"{x}"\<close> gives for an integer.\<close>

definition str_int :: "int \<Rightarrow> string" where
  "str_int x = (if x < 0 then ''-'' else '''') @ dec_digits (nat \<bar>x\<bar>)"

section \<open>The CPU (\<open>SAP1.py\<close>)\<close>

definition u8 :: "int \<Rightarrow> int" where
  "u8 x = x AND 0xFF"

definition u4 :: "int \<Rightarrow> int" where
  "u4 x = x AND 0xF"

text \<open>The dataclass \<open>SAP1\<close>. Its methods mutate the object in place; here each takes the
  object and returns the mutated one. A method that can raise returns the object as it is
  at the raise together with the exception, and a method that prints returns the lines
  it printed.\<close>

record SAP1 =
  memory :: "int list"
  A :: int
  B :: int
  OUT :: int
  IR :: int
  PC :: int
  MAR :: int
  halted :: bool
  t_state :: int
  trace_instructions :: bool
  trace_microsteps :: bool

text \<open>\<open>SAP1()\<close>: the defaults of the dataclass fields.\<close>

definition SAP1_new :: SAP1 where
  "SAP1_new = \<lparr> memory = replicate 16 0, A = 0, B = 0, OUT = 0, IR = 0, PC = 0, MAR = 0,
       halted = False, t_state = 0, trace_instructions = True, trace_microsteps = False \<rparr>"

definition reset :: "SAP1 \<Rightarrow> SAP1" where
  "reset s = s\<lparr> A := 0, B := 0, OUT := 0, IR := 0, PC := 0, MAR := 0, halted := False, t_state := 0 \<rparr>"

definition fetch_cycle :: "SAP1 \<Rightarrow> string list \<times> (error + unit) \<times> SAP1" where
  "fetch_cycle s =
     (let s1 = s\<lparr> MAR := u4 (PC s) \<rparr>;
          p1 = (if trace_microsteps s1 then [''T0: MAR <- PC = '' @ fmt_X 1 (PC s1)] else []);
          s2 = s1\<lparr> t_state := 1 \<rparr>
      in case getitem (memory s2) (MAR s2) of
           Inl e \<Rightarrow> (p1, Inl e, s2)
         | Inr v \<Rightarrow>
             (let s3 = s2\<lparr> IR := u8 v \<rparr>;
                  p2 = (if trace_microsteps s3
                        then [''T1: IR <- M[MAR] = '' @ fmt_X 2 (IR s3) @ ''; PC <- PC+1''] else []);
                  s4 = s3\<lparr> PC := u4 (PC s3 + 1) \<rparr>
              in (p1 @ p2, Inr (), s4\<lparr> t_state := 2 \<rparr>)))"

definition decode :: "SAP1 \<Rightarrow> string list \<times> (int \<times> int) \<times> SAP1" where
  "decode s =
     (let opcode = (drop_bit 4 (IR s)) AND 0xF;
          addr = IR s AND 0xF;
          p = (if trace_microsteps s
               then [''T2: Decode -> opcode='' @ fmt_X 0 opcode @ '', addr='' @ fmt_X 0 addr] else [])
      in (p, (opcode, addr), s\<lparr> t_state := 3 \<rparr>))"

definition exec_LDA :: "int \<Rightarrow> SAP1 \<Rightarrow> (error + unit) \<times> SAP1" where
  "exec_LDA addr s =
     (let s1 = s\<lparr> MAR := u4 addr \<rparr>
      in case getitem (memory s1) (MAR s1) of
           Inl e \<Rightarrow> (Inl e, s1)
         | Inr v \<Rightarrow> (Inr (), s1\<lparr> A := u8 v, t_state := 0 \<rparr>))"

definition exec_ADD :: "int \<Rightarrow> SAP1 \<Rightarrow> (error + unit) \<times> SAP1" where
  "exec_ADD addr s =
     (let s1 = s\<lparr> MAR := u4 addr \<rparr>
      in case getitem (memory s1) (MAR s1) of
           Inl e \<Rightarrow> (Inl e, s1)
         | Inr v \<Rightarrow>
             (let s2 = s1\<lparr> B := u8 v \<rparr>
              in (Inr (), s2\<lparr> A := u8 (A s2 + B s2), t_state := 0 \<rparr>)))"

definition exec_SUB :: "int \<Rightarrow> SAP1 \<Rightarrow> (error + unit) \<times> SAP1" where
  "exec_SUB addr s =
     (let s1 = s\<lparr> MAR := u4 addr \<rparr>
      in case getitem (memory s1) (MAR s1) of
           Inl e \<Rightarrow> (Inl e, s1)
         | Inr v \<Rightarrow>
             (let s2 = s1\<lparr> B := u8 v \<rparr>
              in (Inr (), s2\<lparr> A := u8 (A s2 - B s2), t_state := 0 \<rparr>)))"

definition exec_STA :: "int \<Rightarrow> SAP1 \<Rightarrow> (error + unit) \<times> SAP1" where
  "exec_STA addr s =
     (let s1 = s\<lparr> MAR := u4 addr \<rparr>
      in case setitem (memory s1) (MAR s1) (u8 (A s1)) of
           Inl e \<Rightarrow> (Inl e, s1)
         | Inr m \<Rightarrow> (Inr (), s1\<lparr> memory := m, t_state := 0 \<rparr>))"

definition exec_OUT :: "SAP1 \<Rightarrow> (error + unit) \<times> SAP1" where
  "exec_OUT s = (Inr (), s\<lparr> OUT := u8 (A s), t_state := 0 \<rparr>)"

definition exec_HLT :: "SAP1 \<Rightarrow> (error + unit) \<times> SAP1" where
  "exec_HLT s = (Inr (), s\<lparr> halted := True, t_state := 0 \<rparr>)"

text \<open>The \<open>if\<close>/\<open>elif\<close> chain of \<open>step\<close>: the trace message, formatted before the
  instruction runs, and the instruction's method; the last branch raises.\<close>

definition dispatch :: "int \<Rightarrow> int \<Rightarrow> SAP1 \<Rightarrow> (error + string) \<times> SAP1" where
  "dispatch opcode addr s =
     (let finish = (\<lambda>msg (r, s'). (case r of Inl e \<Rightarrow> Inl e | Inr (_::unit) \<Rightarrow> Inr msg, s'))
      in if opcode = 0x1 then finish (''LDA '' @ fmt_X 0 addr) (exec_LDA addr s)
         else if opcode = 0x2 then finish (''ADD '' @ fmt_X 0 addr) (exec_ADD addr s)
         else if opcode = 0x3 then finish (''SUB '' @ fmt_X 0 addr) (exec_SUB addr s)
         else if opcode = 0x4 then finish (''STA '' @ fmt_X 0 addr) (exec_STA addr s)
         else if opcode = 0xE then finish (''OUT (A='' @ fmt_X 2 (A s) @ '')'') (exec_OUT s)
         else if opcode = 0xF then finish ''HLT'' (exec_HLT s)
         else (Inl (ValueError_opcode opcode (IR s)), s))"

definition trace_line :: "SAP1 \<Rightarrow> string \<Rightarrow> string" where
  "trace_line s trace_msg =
     ''PC='' @ fmt_X 1 (PC s) @ '' IR='' @ fmt_X 2 (IR s) @ '' A='' @ fmt_X 2 (A s)
       @ '' B='' @ fmt_X 2 (B s) @ '' OUT='' @ fmt_X 2 (OUT s) @ '' :: '' @ trace_msg"

text \<open>\<open>step\<close> returns the printed lines, the exception or the returned value
  (\<open>None\<close> or the trace line), and the object afterwards.\<close>

definition step :: "SAP1 \<Rightarrow> string list \<times> (error + string option) \<times> SAP1" where
  "step s =
     (if halted s then ([], Inr None, s)
      else case fetch_cycle s of
             (p1, Inl e, s1) \<Rightarrow> (p1, Inl e, s1)
           | (p1, Inr _, s1) \<Rightarrow>
               (case decode s1 of
                  (p2, (opcode, addr), s2) \<Rightarrow>
                    (case dispatch opcode addr s2 of
                       (Inl e, s3) \<Rightarrow> (p1 @ p2, Inl e, s3)
                     | (Inr trace_msg, s3) \<Rightarrow>
                         (p1 @ p2,
                          Inr (if trace_instructions s3 then Some (trace_line s3 trace_msg) else None),
                          s3))))"

text \<open>\<open>load_program\<close>: the loop over the pairs; a raise leaves the cells written so far.\<close>

fun load_program :: "(int \<times> int) list \<Rightarrow> SAP1 \<Rightarrow> (error + unit) \<times> SAP1" where
  "load_program [] s = (Inr (), s)"
| "load_program ((addr, byte) # rest) s =
     (case setitem (memory s) (u4 addr) (u8 byte) of
        Inl e \<Rightarrow> (Inl e, s)
      | Inr m \<Rightarrow> load_program rest (s\<lparr> memory := m \<rparr>))"

text \<open>The loop of \<open>run\<close>, with its local variables \<open>trace\<close> and \<open>steps\<close>. An exception of
  \<open>step\<close> leaves the loop and \<open>run\<close>.\<close>

function run_loop ::
  "int \<Rightarrow> int \<Rightarrow> string list \<Rightarrow> string list \<Rightarrow> SAP1 \<Rightarrow> string list \<times> (error + string list) \<times> SAP1" where
  "run_loop max_steps steps printed trace s =
     (if \<not> halted s \<and> steps < max_steps then
        (case step s of
           (p, Inl e, s') \<Rightarrow> (printed @ p, Inl e, s')
         | (p, Inr msg, s') \<Rightarrow>
             run_loop max_steps (steps + 1) (printed @ p)
               (case msg of None \<Rightarrow> trace | Some m \<Rightarrow> if m \<noteq> [] then trace @ [m] else trace) s')
      else (printed, Inr trace, s))"
  by pat_completeness auto
termination
  by (relation "measure (\<lambda>(max_steps, steps, printed, trace, s). nat (max_steps - steps))") auto

declare run_loop.simps [simp del]

definition run :: "int \<Rightarrow> SAP1 \<Rightarrow> string list \<times> (error + string list) \<times> SAP1" where
  "run max_steps s = run_loop max_steps 0 [] [] s"

section \<open>Python string methods\<close>

text \<open>The string methods the two sources call, on code points below 256.
  \<open>isspace\<close> is the whitespace of \<open>str.strip()\<close>, \<open>str.split()\<close> and \<open>int\<close>.\<close>

definition isspace :: "char \<Rightarrow> bool" where
  "isspace c \<longleftrightarrow> (of_char c :: nat) \<in> {0x09, 0x0A, 0x0B, 0x0C, 0x0D, 0x1C, 0x1D, 0x1E, 0x1F, 0x20, 0x85, 0xA0}"

definition strip :: "string \<Rightarrow> string" where
  "strip s = rev (dropWhile isspace (rev (dropWhile isspace s)))"

text \<open>\<open>s.split()\<close>: the maximal runs of characters that are not whitespace.\<close>

fun split_ws_from :: "string \<Rightarrow> string \<Rightarrow> string list" where
  "split_ws_from cur [] = (if cur = [] then [] else [cur])"
| "split_ws_from cur (c # cs) =
     (if isspace c then (if cur = [] then [] else [cur]) @ split_ws_from [] cs
      else split_ws_from (cur @ [c]) cs)"

definition split_ws :: "string \<Rightarrow> string list" where
  "split_ws s = split_ws_from [] s"

text \<open>\<open>s.split(sep)\<close> for a separator of one character: empty pieces are kept.\<close>

fun split_on_from :: "char \<Rightarrow> string \<Rightarrow> string \<Rightarrow> string list" where
  "split_on_from sep cur [] = [cur]"
| "split_on_from sep cur (c # cs) =
     (if c = sep then cur # split_on_from sep [] cs else split_on_from sep (cur @ [c]) cs)"

definition split_on :: "char \<Rightarrow> string \<Rightarrow> string list" where
  "split_on sep s = split_on_from sep [] s"

text \<open>\<open>s.split(sep, 1)[0]\<close>: the text before the first separator.\<close>

definition split_first :: "char \<Rightarrow> string \<Rightarrow> string" where
  "split_first sep s = takeWhile (\<lambda>c. c \<noteq> sep) s"

text \<open>\<open>s.splitlines()\<close>: a line ends at a line boundary, \<open>\r\n\<close> is one boundary, and
  there is no empty last line.\<close>

definition is_linebreak :: "char \<Rightarrow> bool" where
  "is_linebreak c \<longleftrightarrow> (of_char c :: nat) \<in> {0x0A, 0x0B, 0x0C, 0x0D, 0x1C, 0x1D, 0x1E, 0x85}"

fun splitlines_from :: "bool \<Rightarrow> string \<Rightarrow> string \<Rightarrow> string list" where
  "splitlines_from after_cr cur [] = (if cur = [] then [] else [cur])"
| "splitlines_from after_cr cur (c # cs) =
     (if after_cr \<and> c = CHR 0x0A then splitlines_from False cur cs
      else if is_linebreak c then cur # splitlines_from (c = CHR 0x0D) [] cs
      else splitlines_from False (cur @ [c]) cs)"

definition splitlines :: "string \<Rightarrow> string list" where
  "splitlines s = splitlines_from False [] s"

text \<open>\<open>sep.join(xs)\<close>.\<close>

fun join :: "string \<Rightarrow> string list \<Rightarrow> string" where
  "join sep [] = []"
| "join sep [x] = x"
| "join sep (x # y # zs) = x @ sep @ join sep (y # zs)"

text \<open>\<open>s.upper()\<close>: the letters a..z and the lower-case letters U+00E0..U+00FE (without the
  division sign U+00F7) become the letter 32 code points below, and the sharp s U+00DF
  becomes \<open>SS\<close>; every other character below 256 stays, except the two whose upper case
  lies beyond 255, the micro sign U+00B5 and the y with diaeresis U+00FF. These two are
  not in the texts covered where \<open>upper\<close> is applied; the definition leaves them as they
  are.\<close>

definition upper_char :: "char \<Rightarrow> string" where
  "upper_char c =
     (let n = (of_char c :: nat)
      in if (97 \<le> n \<and> n \<le> 122) \<or> (0xE0 \<le> n \<and> n \<le> 0xFE \<and> n \<noteq> 0xF7) then [char_of (n - 32)]
         else if n = 0xDF then ''SS''
         else [c])"

definition upper :: "string \<Rightarrow> string" where
  "upper s = concat (map upper_char s)"

definition startswith :: "string \<Rightarrow> string \<Rightarrow> bool" where
  "startswith p s \<longleftrightarrow> take (length p) s = p"

definition endswith_char :: "char \<Rightarrow> string \<Rightarrow> bool" where
  "endswith_char c s \<longleftrightarrow> s \<noteq> [] \<and> last s = c"

definition replace_char :: "char \<Rightarrow> char \<Rightarrow> string \<Rightarrow> string" where
  "replace_char old new s = map (\<lambda>c. if c = old then new else c) s"

text \<open>\<open>s.isdigit()\<close>: not empty, and every character is a digit; below 256 these are 0..9
  and the superscripts 1, 2, 3.\<close>

definition isdigit :: "string \<Rightarrow> bool" where
  "isdigit s \<longleftrightarrow> s \<noteq> [] \<and>
     list_all (\<lambda>c. let n = (of_char c :: nat) in (48 \<le> n \<and> n \<le> 57) \<or> n \<in> {0xB2, 0xB3, 0xB9}) s"

subsection \<open>\<open>int(s, base)\<close>\<close>

text \<open>The value of a digit or letter as \<open>int\<close> reads it.\<close>

definition digit_val :: "char \<Rightarrow> nat option" where
  "digit_val c =
     (let n = (of_char c :: nat)
      in if 48 \<le> n \<and> n \<le> 57 then Some (n - 48)
         else if 97 \<le> n \<and> n \<le> 122 then Some (n - 87)
         else if 65 \<le> n \<and> n \<le> 90 then Some (n - 55)
         else None)"

text \<open>The digits, with single underscores between them; \<open>prev_us\<close> says that the
  character before was an underscore.\<close>

fun scan_digits :: "nat \<Rightarrow> bool \<Rightarrow> nat \<Rightarrow> string \<Rightarrow> nat option" where
  "scan_digits base prev_us acc [] = (if prev_us then None else Some acc)"
| "scan_digits base prev_us acc (c # cs) =
     (if c = CHR ''_'' then (if prev_us then None else scan_digits base True acc cs)
      else case digit_val c of
             None \<Rightarrow> None
           | Some d \<Rightarrow> if d < base then scan_digits base False (acc * base + d) cs else None)"

text \<open>The base that the character after a leading \<open>0\<close> announces.\<close>

definition prefix_base :: "string \<Rightarrow> nat option" where
  "prefix_base rest =
     (case rest of
        [] \<Rightarrow> None
      | c # _ \<Rightarrow> if c = CHR ''x'' \<or> c = CHR ''X'' then Some 16
                 else if c = CHR ''o'' \<or> c = CHR ''O'' then Some 8
                 else if c = CHR ''b'' \<or> c = CHR ''B'' then Some 2
                 else None)"

text \<open>\<open>int(s, base)\<close> for a string \<open>s\<close>, with \<open>base = 0\<close> for "by the prefix" and
  \<open>base = 10\<close> for \<open>int(s)\<close>: whitespace around, a sign, with base 0 a prefix \<open>0x\<close>, \<open>0o\<close>
  or \<open>0b\<close> (then one underscore may follow) and otherwise decimal digits, where a number
  that starts with \<open>0\<close> has to be zero. The interpreter's limit on the number of decimal
  digits (4300 by default) is not part of the model.\<close>

definition py_int :: "nat \<Rightarrow> string \<Rightarrow> error + int" where
  "py_int base s =
     (let t = strip s;
          neg = (t \<noteq> [] \<and> hd t = CHR ''-'');
          u = (if t \<noteq> [] \<and> (hd t = CHR ''+'' \<or> hd t = CHR ''-'') then tl t else t);
          zero = (u \<noteq> [] \<and> hd u = CHR ''0'');
          b = (if base = 0 then (if zero then (case prefix_base (tl u) of Some pb \<Rightarrow> pb | None \<Rightarrow> 10) else 10)
               else base);
          error_if_nonzero = (base = 0 \<and> zero \<and> prefix_base (tl u) = None);
          v = (if zero \<and> prefix_base (tl u) = Some b
               then (let w = drop 2 u in if w \<noteq> [] \<and> hd w = CHR ''_'' then tl w else w)
               else u)
      in if v = [] \<or> hd v = CHR ''_'' then Inl (ValueError_literal s)
         else case scan_digits b False 0 v of
                None \<Rightarrow> Inl (ValueError_literal s)
              | Some n \<Rightarrow> if error_if_nonzero \<and> n \<noteq> 0 then Inl (ValueError_literal s)
                          else Inr (if neg then - int n else int n))"

section \<open>The assembler (\<open>SAP1.py\<close>)\<close>

definition OPCODES :: "string \<rightharpoonup> int" where
  "OPCODES = map_of [(''LDA'', 0x1), (''ADD'', 0x2), (''SUB'', 0x3), (''STA'', 0x4),
                     (''OUT'', 0xE), (''HLT'', 0xF)]"

text \<open>The first loop of \<open>assemble\<close>: comments cut, whitespace stripped, empty lines
  dropped.\<close>

definition cleaned :: "string list \<Rightarrow> string list" where
  "cleaned lines = filter (\<lambda>line. line \<noteq> []) (map (\<lambda>raw. strip (split_first (CHR '';'') raw)) lines)"

text \<open>The second loop, over the cleaned lines, with its variables \<open>labels\<close>, \<open>pc\<close> and
  \<open>items\<close>. \<open>parts[0]\<close> and \<open>parts[1]\<close> raise \<open>IndexError\<close> when the part is missing.\<close>

type_synonym item = "string \<times> string option"

fun layout :: "string list \<Rightarrow> (string \<rightharpoonup> int) \<Rightarrow> int \<Rightarrow> item list \<Rightarrow> error + (string \<rightharpoonup> int) \<times> item list" where
  "layout [] labels pc items = Inr (labels, items)"
| "layout (line # rest) labels pc items =
     (if endswith_char (CHR '':'') line then layout rest (labels(strip (butlast line) \<mapsto> pc)) pc items
      else case split_ws (replace_char (CHR '','') (CHR '' '') line) of
             [] \<Rightarrow> Inl IndexError
           | p0 # ps \<Rightarrow>
               (let head = upper p0
                in if head = ''.BYTE'' then
                     (case ps of
                        [] \<Rightarrow> Inl IndexError
                      | p1 # _ \<Rightarrow> layout rest labels (pc + 1) (items @ [(''.BYTE'', Some p1)]))
                   else if OPCODES head \<noteq> None then
                     layout rest labels (pc + 1) (items @ [(head, case ps of [] \<Rightarrow> None | p1 # _ \<Rightarrow> Some p1)])
                   else Inl (AsmError (''Unknown directive or mnemonic: '' @ head))))"

definition parse_addr :: "(string \<rightharpoonup> int) \<Rightarrow> string option \<Rightarrow> error + int" where
  "parse_addr labels tok =
     (case tok of
        None \<Rightarrow> Inr 0
      | Some t \<Rightarrow> (case labels t of Some a \<Rightarrow> Inr a | None \<Rightarrow> py_int 0 t))"

text \<open>The third loop, over the items, with its variable \<open>out\<close>. \<open>int(None, 0)\<close> is a
  \<open>TypeError\<close> and \<open>OPCODES[mnemonic]\<close> a \<open>KeyError\<close> for an unknown mnemonic; the items
  that \<open>layout\<close> makes reach neither.\<close>

fun encode :: "(string \<rightharpoonup> int) \<Rightarrow> item list \<Rightarrow> int list \<Rightarrow> error + int list" where
  "encode labels [] out = Inr out"
| "encode labels ((mnemonic, opnd) # rest) out =
     (if mnemonic = ''.BYTE'' then
        (case opnd of
           None \<Rightarrow> Inl TypeError
         | Some t \<Rightarrow> (case py_int 0 t of
                        Inl e \<Rightarrow> Inl e
                      | Inr val \<Rightarrow> encode labels rest (out @ [val AND 0xFF])))
      else case OPCODES mnemonic of
             None \<Rightarrow> Inl (KeyError mnemonic)
           | Some opcode \<Rightarrow>
               if mnemonic = ''OUT'' \<or> mnemonic = ''HLT'' then
                 encode labels rest (out @ [push_bit 4 opcode])
               else (case parse_addr labels opnd of
                       Inl e \<Rightarrow> Inl e
                     | Inr addr \<Rightarrow>
                         encode labels rest (out @ [push_bit 4 (opcode AND 0xF) OR (addr AND 0xF)])))"

definition assemble :: "string list \<Rightarrow> error + int list" where
  "assemble lines =
     (case layout (cleaned lines) Map.empty 0 [] of
        Inl e \<Rightarrow> Inl e
      | Inr (labels, items) \<Rightarrow> encode labels items [])"

text \<open>The demo: the list \<open>asm\<close> of \<open>demo_program_sta\<close>, the loop that copies the code
  into the memory of a new CPU, and the function itself, which returns the trace with a
  last line about the final registers.\<close>

definition demo_asm :: "string list" where
  "demo_asm =
     [''        LDA a'',
      ''        ADD b'',
      ''        STA c'',
      ''        LDA c'',
      ''        OUT'',
      ''        HLT'',
      ''a:      .byte 5'',
      ''b:      .byte 7'',
      ''c:      .byte 0'']"

fun copy_code :: "int \<Rightarrow> int list \<Rightarrow> SAP1 \<Rightarrow> (error + unit) \<times> SAP1" where
  "copy_code i [] cpu = (Inr (), cpu)"
| "copy_code i (byte # rest) cpu =
     (case setitem (memory cpu) i (byte AND 0xFF) of
        Inl e \<Rightarrow> (Inl e, cpu)
      | Inr m \<Rightarrow> copy_code (i + 1) rest (cpu\<lparr> memory := m \<rparr>))"

definition str_bool :: "bool \<Rightarrow> string" where
  "str_bool b = (if b then ''True'' else ''False'')"

definition run_code :: "int list \<Rightarrow> (error + string list) \<times> SAP1" where
  "run_code code =
     (case copy_code 0 code SAP1_new of
        (Inl e, cpu) \<Rightarrow> (Inl e, cpu)
      | (Inr _, cpu) \<Rightarrow>
          (case run 1000 cpu of
             (_, Inl e, cpu') \<Rightarrow> (Inl e, cpu')
           | (_, Inr trace, cpu') \<Rightarrow>
               (Inr (trace @ [''FINAL: A='' @ fmt_X 2 (A cpu') @ '' OUT='' @ fmt_X 2 (OUT cpu')
                              @ '' halted='' @ str_bool (halted cpu')]), cpu')))"

definition demo_program_sta :: "error + string list" where
  "demo_program_sta =
     (case assemble demo_asm of
        Inl e \<Rightarrow> Inl e
      | Inr code \<Rightarrow> fst (run_code code))"

section \<open>The toy compiler (\<open>sap1_playground.py\<close>)\<close>

text \<open>The statements of a source: the list comprehension at the start of
  \<open>compile_toy\<close>.\<close>

definition statements :: "string \<Rightarrow> string list" where
  "statements source = filter (\<lambda>line. line \<noteq> []) (map strip (split_on (CHR '';'') source))"

text \<open>The local variables of \<open>compile_toy\<close>: \<open>assembly\<close>, \<open>variables\<close> and \<open>mem_ptr\<close>.\<close>

type_synonym compiler = "string list \<times> (string \<rightharpoonup> int) \<times> int"

text \<open>The body of the loop over the statements. Unpacking into two names raises
  \<open>ValueError\<close> unless there are exactly two values; \<open>variables[v]\<close> raises \<open>KeyError\<close>
  with the name \<open>v\<close>; \<open>line.split()[1]\<close> raises \<open>IndexError\<close>.\<close>

definition compile_line :: "string \<Rightarrow> compiler \<Rightarrow> error + compiler" where
  "compile_line line st =
     (case st of (assembly, variables, mem_ptr) \<Rightarrow>
        if startswith ''print'' line then
          (case split_ws line of
             _ # var # _ \<Rightarrow>
               (case variables var of
                  None \<Rightarrow> Inl (KeyError var)
                | Some addr \<Rightarrow>
                    Inr (assembly @ [''    LDA '' @ str_int addr, ''    OUT''], variables, mem_ptr))
           | _ \<Rightarrow> Inl IndexError)
        else if CHR ''='' \<in> set line then
          (case map strip (split_on (CHR ''='') line) of
             [left, right] \<Rightarrow>
               if CHR ''+'' \<in> set right then
                 (case map strip (split_on (CHR ''+'') right) of
                    [a, b] \<Rightarrow>
                      (case variables a of
                         None \<Rightarrow> Inl (KeyError a)
                       | Some addr_a \<Rightarrow>
                           (case variables b of
                              None \<Rightarrow> Inl (KeyError b)
                            | Some addr_b \<Rightarrow>
                                Inr (assembly @ [''    LDA '' @ str_int addr_a,
                                                 ''    ADD '' @ str_int addr_b,
                                                 ''    STA '' @ str_int mem_ptr],
                                     variables(left \<mapsto> mem_ptr), mem_ptr - 1)))
                  | ps \<Rightarrow> Inl (ValueError_unpack (length ps)))
               else if isdigit right then
                 Inr (assembly @ [''    LDA #'' @ right, ''    STA '' @ str_int mem_ptr],
                      variables(left \<mapsto> mem_ptr), mem_ptr - 1)
               else
                 (case variables right of
                    None \<Rightarrow> Inl (KeyError right)
                  | Some addr \<Rightarrow> Inr (assembly, variables(left \<mapsto> addr), mem_ptr))
           | ps \<Rightarrow> Inl (ValueError_unpack (length ps)))
        else Inr st)"

fun compile_lines :: "string list \<Rightarrow> compiler \<Rightarrow> error + compiler" where
  "compile_lines [] st = Inr st"
| "compile_lines (line # rest) st =
     (case compile_line line st of Inl e \<Rightarrow> Inl e | Inr st' \<Rightarrow> compile_lines rest st')"

definition compile_toy :: "string \<Rightarrow> error + string" where
  "compile_toy source =
     (case compile_lines (statements source) ([], Map.empty, 0x0E) of
        Inl e \<Rightarrow> Inl e
      | Inr (assembly, variables, mem_ptr) \<Rightarrow> Inr (join [CHR 0x0A] (assembly @ [''    HLT''])))"

section \<open>The playground VM (\<open>run\<close> of \<open>sap1_playground.py\<close>)\<close>

text \<open>An entry of \<open>code\<close> is a pair of the instruction's name and its argument, an
  integer or \<open>None\<close>.\<close>

type_synonym instr = "string \<times> int option"

text \<open>The body of the parsing loop: what one line of the assembly appends to \<open>code\<close>.\<close>

definition parse_line :: "string \<Rightarrow> error + instr list" where
  "parse_line raw =
     (let line = strip raw
      in if line = [] \<or> startswith ''.'' line then Inr []
         else case split_ws line of
                [] \<Rightarrow> Inl IndexError
              | p0 # ps \<Rightarrow>
                  (let arg = (\<lambda>name conv.
                         case ps of
                           [] \<Rightarrow> Inl IndexError
                         | p1 # _ \<Rightarrow> (case conv p1 of Inl e \<Rightarrow> Inl e | Inr n \<Rightarrow> Inr [(name, Some n)]))
                   in if p0 = ''LDA'' then
                        (case ps of
                           [] \<Rightarrow> Inl IndexError
                         | p1 # _ \<Rightarrow>
                             if startswith ''#'' p1 then arg ''LDA_IMM'' (\<lambda>p. py_int 10 (tl p))
                             else arg ''LDA'' (py_int 10))
                      else if p0 = ''STA'' then arg ''STA'' (py_int 10)
                      else if p0 = ''ADD'' then arg ''ADD'' (py_int 10)
                      else if p0 = ''OUT'' then Inr [(''OUT'', None)]
                      else if p0 = ''HLT'' then Inr [(''HLT'', None)]
                      else Inr []))"

fun parse_lines :: "string list \<Rightarrow> instr list \<Rightarrow> error + instr list" where
  "parse_lines [] code = Inr code"
| "parse_lines (raw # rest) code =
     (case parse_line raw of Inl e \<Rightarrow> Inl e | Inr new \<Rightarrow> parse_lines rest (code @ new))"

text \<open>The local variables of \<open>run\<close> during execution, and the lines printed so far. \<open>pc\<close>
  starts at 0 and is only ever incremented, so it is a natural number.\<close>

record vm =
  vm_memory :: "int list"
  vm_acc :: int
  vm_pc :: nat
  vm_output :: "int list"
  vm_printed :: "string list"

text \<open>One pass through the body of the \<open>while\<close> loop: the instruction at \<open>pc\<close> runs and
  \<open>pc\<close> is incremented (\<open>Next\<close>), or the loop is left by \<open>break\<close> (\<open>Break\<close>) or by an
  exception (\<open>Raise\<close>). A name that no branch tests does nothing. \<open>memory[None]\<close> is a
  \<open>TypeError\<close>; \<open>with_arg\<close> raises it for \<open>LDA_IMM\<close> too, where Python would store \<open>None\<close>
  in \<open>acc\<close>: the parsing loop makes no such entry.\<close>

datatype flow = Next vm | Break vm | Raise error vm

definition with_arg :: "int option \<Rightarrow> vm \<Rightarrow> (int \<Rightarrow> error + vm) \<Rightarrow> flow" where
  "with_arg arg st f =
     (case arg of
        None \<Rightarrow> Raise TypeError st
      | Some n \<Rightarrow> (case f n of Inl e \<Rightarrow> Raise e st | Inr st' \<Rightarrow> Next (st'\<lparr> vm_pc := vm_pc st' + 1 \<rparr>)))"

definition loop_body :: "instr list \<Rightarrow> vm \<Rightarrow> flow" where
  "loop_body code st =
     (case code ! vm_pc st of (instr, arg) \<Rightarrow>
        if instr = ''LDA'' then
          with_arg arg st (\<lambda>n. case getitem (vm_memory st) n of
                                 Inl e \<Rightarrow> Inl e | Inr v \<Rightarrow> Inr (st\<lparr> vm_acc := v \<rparr>))
        else if instr = ''LDA_IMM'' then
          with_arg arg st (\<lambda>n. Inr (st\<lparr> vm_acc := n \<rparr>))
        else if instr = ''STA'' then
          with_arg arg st (\<lambda>n. case setitem (vm_memory st) n (vm_acc st) of
                                 Inl e \<Rightarrow> Inl e | Inr m \<Rightarrow> Inr (st\<lparr> vm_memory := m \<rparr>))
        else if instr = ''ADD'' then
          with_arg arg st (\<lambda>n. case getitem (vm_memory st) n of
                                 Inl e \<Rightarrow> Inl e | Inr v \<Rightarrow> Inr (st\<lparr> vm_acc := (vm_acc st + v) AND 0xFF \<rparr>))
        else if instr = ''OUT'' then
          Next (st\<lparr> vm_printed := vm_printed st @ [''OUT = '' @ str_int (vm_acc st)],
                    vm_output := vm_output st @ [vm_acc st], vm_pc := vm_pc st + 1 \<rparr>)
        else if instr = ''HLT'' then Break st
        else Next (st\<lparr> vm_pc := vm_pc st + 1 \<rparr>))"

text \<open>The \<open>while\<close> loop. Each pass that does not leave the loop increments \<open>pc\<close>, so the
  distance to \<open>len(code)\<close> decreases.\<close>

function exec_loop :: "instr list \<Rightarrow> vm \<Rightarrow> (error + unit) \<times> vm" where
  "exec_loop code st =
     (if vm_pc st < length code then
        (case loop_body code st of
           Next st' \<Rightarrow> exec_loop code st'
         | Break st' \<Rightarrow> (Inr (), st')
         | Raise e st' \<Rightarrow> (Inl e, st'))
      else (Inr (), st))"
  by pat_completeness auto
termination
  by (relation "measure (\<lambda>(code, st). length code - vm_pc st)")
     (auto simp: loop_body_def with_arg_def split: prod.splits if_splits option.splits sum.splits)

declare exec_loop.simps [simp del]

text \<open>The same loop with a bound on the number of passes through its body: \<open>None\<close> when
  the bound is used up before the loop ends.\<close>

fun exec_fuel :: "nat \<Rightarrow> instr list \<Rightarrow> vm \<Rightarrow> ((error + unit) \<times> vm) option" where
  "exec_fuel 0 code st = (if vm_pc st < length code then None else Some (Inr (), st))"
| "exec_fuel (Suc n) code st =
     (if vm_pc st < length code then
        (case loop_body code st of
           Next st' \<Rightarrow> exec_fuel n code st'
         | Break st' \<Rightarrow> Some (Inr (), st')
         | Raise e st' \<Rightarrow> Some (Inl e, st'))
      else Some (Inr (), st))"

definition vm_new :: vm where
  "vm_new = \<lparr> vm_memory = replicate 16 0, vm_acc = 0, vm_pc = 0, vm_output = [], vm_printed = [] \<rparr>"

text \<open>What \<open>run\<close> gives when its loop has ended: the lines printed, and \<open>output\<close> or the
  exception.\<close>

definition finish :: "(error + unit) \<times> vm \<Rightarrow> string list \<times> (error + int list)" where
  "finish r = (case r of (Inl e, st) \<Rightarrow> (vm_printed st, Inl e) | (Inr _, st) \<Rightarrow> (vm_printed st, Inr (vm_output st)))"

definition playground_run :: "string \<Rightarrow> string list \<times> (error + int list)" where
  "playground_run assembly =
     (case parse_lines (splitlines assembly) [] of
        Inl e \<Rightarrow> ([], Inl e)
      | Inr code \<Rightarrow> finish (exec_loop code vm_new))"

section \<open>Predicates used by the properties\<close>

text \<open>The declared widths: \<open>A\<close>, \<open>B\<close>, \<open>OUT\<close>, \<open>IR\<close> and every memory cell are 8 bits
  wide, \<open>PC\<close> and \<open>MAR\<close> 4 bits.\<close>

definition bounds :: "SAP1 \<Rightarrow> bool" where
  "bounds s \<longleftrightarrow>
     0 \<le> A s \<and> A s \<le> 255 \<and> 0 \<le> B s \<and> B s \<le> 255 \<and> 0 \<le> OUT s \<and> OUT s \<le> 255 \<and>
     0 \<le> IR s \<and> IR s \<le> 255 \<and> 0 \<le> PC s \<and> PC s \<le> 15 \<and> 0 \<le> MAR s \<and> MAR s \<le> 15 \<and>
     list_all (\<lambda>v. 0 \<le> v \<and> v \<le> 255) (memory s)"

text \<open>The object after the fetch cycle and the decoding of a \<open>step\<close> whose memory read
  succeeds.\<close>

definition fetched :: "SAP1 \<Rightarrow> SAP1" where
  "fetched s = s\<lparr> MAR := u4 (PC s), IR := u8 (memory s ! nat (u4 (PC s))), PC := u4 (PC s + 1), t_state := 3 \<rparr>"

text \<open>Two objects that agree on everything but the two tracing flags.\<close>

definition same_machine :: "SAP1 \<Rightarrow> SAP1 \<Rightarrow> bool" where
  "same_machine s1 s2 \<longleftrightarrow>
     memory s1 = memory s2 \<and> A s1 = A s2 \<and> B s1 = B s2 \<and> OUT s1 = OUT s2 \<and> IR s1 = IR s2 \<and>
     PC s1 = PC s2 \<and> MAR s1 = MAR s2 \<and> halted s1 = halted s2 \<and> t_state s1 = t_state s2"

abbreviation set_flags :: "bool \<Rightarrow> bool \<Rightarrow> SAP1 \<Rightarrow> SAP1" where
  "set_flags ti tm s \<equiv> s\<lparr> trace_instructions := ti, trace_microsteps := tm \<rparr>"

text \<open>The exception a call ended with, if any, without the value it returned otherwise.\<close>

definition outcome :: "error + 'a \<Rightarrow> error option" where
  "outcome r = (case r of Inl e \<Rightarrow> Some e | Inr _ \<Rightarrow> None)"

text \<open>The result is an exception of the class \<open>AsmError\<close>.\<close>

definition is_AsmError :: "error + 'a \<Rightarrow> bool" where
  "is_AsmError r = (case r of Inl (AsmError _) \<Rightarrow> True | _ \<Rightarrow> False)"

text \<open>The demo program written with \<open>.BYTE\<close> directly after the label, and with every
  label on a line of its own.\<close>

definition compact_asm :: "string list" where
  "compact_asm = [''LDA a'', ''ADD b'', ''STA c'', ''LDA c'', ''OUT'', ''HLT'',
                  ''a:.BYTE 5'', ''b:.BYTE 7'', ''c:.BYTE 0'']"

definition separate_asm :: "string list" where
  "separate_asm = [''LDA a'', ''ADD b'', ''STA c'', ''LDA c'', ''OUT'', ''HLT'',
                   ''a:'', ''.BYTE 5'', ''b:'', ''.BYTE 7'', ''c:'', ''.BYTE 0'']"

section \<open>Properties of the CPU\<close>

subsection \<open>Masks and list access\<close>

lemma u8_mod: "u8 x = x mod 256"
proof -
  have "x AND mask 8 = x mod 2 ^ 8"
    by (simp only: take_bit_eq_mask [symmetric] take_bit_eq_mod)
  then show ?thesis by (simp add: u8_def mask_eq_exp_minus_1)
qed

lemma u4_mod: "u4 x = x mod 16"
proof -
  have "x AND mask 4 = x mod 2 ^ 4"
    by (simp only: take_bit_eq_mask [symmetric] take_bit_eq_mod)
  then show ?thesis by (simp add: u4_def mask_eq_exp_minus_1)
qed

lemma u8_range: "0 \<le> u8 x \<and> u8 x \<le> 255"
  by (simp add: u8_mod) 

lemma u4_range: "0 \<le> u4 x \<and> u4 x \<le> 15"
  by (simp add: u4_mod)

lemma nibble_hi: "0 \<le> x \<Longrightarrow> x \<le> 255 \<Longrightarrow> (drop_bit 4 x) AND 0xF = x div (16::int)"
proof -
  assume a: "0 \<le> x" "x \<le> 255"
  have "(drop_bit 4 x) AND mask 4 = (x div 2 ^ 4) mod 2 ^ 4"
    by (simp only: take_bit_eq_mask [symmetric] take_bit_eq_mod drop_bit_eq_div)
  moreover have "x div 16 < 16" "0 \<le> x div 16" using a by auto
  ultimately show ?thesis by (simp add: mask_eq_exp_minus_1)
qed

lemma nibble_lo: "x AND 0xF = x mod (16::int)"
  using u4_mod[of x] by (simp add: u4_def)

lemma getitem_ok: "0 \<le> i \<Longrightarrow> i < int (length xs) \<Longrightarrow> getitem xs i = Inr (xs ! nat i)"
  by (simp add: getitem_def list_index_def)

lemma setitem_ok: "0 \<le> i \<Longrightarrow> i < int (length xs) \<Longrightarrow> setitem xs i v = Inr (xs[nat i := v])"
  by (simp add: setitem_def list_index_def)

lemma setitem_cells:
  "setitem xs i v = Inr ys \<Longrightarrow> list_all P xs \<Longrightarrow> P v \<Longrightarrow> list_all P ys"
  by (auto simp: setitem_def list_all_iff split: option.splits dest!: set_update_subset_insert [THEN subsetD])

lemma bounds_reset: "bounds s \<Longrightarrow> bounds (reset s)"
  by (simp add: bounds_def reset_def)

lemma bounds_load_program: "bounds s \<Longrightarrow> bounds (snd (load_program pairs s))"
proof (induction pairs arbitrary: s)
  case Nil
  then show ?case by simp
next
  case (Cons p pairs)
  obtain addr byte where p: "p = (addr, byte)" by (cases p)
  show ?case
  proof (cases "setitem (memory s) (u4 addr) (u8 byte)")
    case (Inl e)
    with Cons.prems p show ?thesis by simp
  next
    case (Inr m)
    have "list_all (\<lambda>v. 0 \<le> v \<and> v \<le> 255) m"
      using setitem_cells [OF Inr] Cons.prems u8_range [of byte] by (simp add: bounds_def)
    with Cons.prems have "bounds (s\<lparr>memory := m\<rparr>)" by (simp add: bounds_def)
    from Cons.IH [OF this] Inr p show ?thesis by simp
  qed
qed

lemma bounds_fetch_cycle: "bounds s \<Longrightarrow> bounds (snd (snd (fetch_cycle s)))"
  using u4_range [of "PC s"] u4_range [of "PC s + 1"] u8_range
  by (auto simp: fetch_cycle_def bounds_def Let_def split: sum.splits)

lemma bounds_decode: "bounds s \<Longrightarrow> bounds (snd (snd (decode s)))"
  by (simp add: decode_def bounds_def Let_def)

lemma bounds_exec_LDA: "bounds s \<Longrightarrow> bounds (snd (exec_LDA addr s))"
  using u4_range [of addr] u8_range
  by (auto simp: exec_LDA_def bounds_def Let_def split: sum.splits)

lemma bounds_exec_ADD: "bounds s \<Longrightarrow> bounds (snd (exec_ADD addr s))"
  using u4_range [of addr] u8_range
  by (auto simp: exec_ADD_def bounds_def Let_def split: sum.splits)

lemma bounds_exec_SUB: "bounds s \<Longrightarrow> bounds (snd (exec_SUB addr s))"
  using u4_range [of addr] u8_range
  by (auto simp: exec_SUB_def bounds_def Let_def split: sum.splits)

lemma bounds_exec_STA: "bounds s \<Longrightarrow> bounds (snd (exec_STA addr s))"
proof (cases "setitem (memory s) (u4 addr) (u8 (A s))")
  case (Inl e)
  assume "bounds s"
  with Inl u4_range [of addr] show ?thesis by (simp add: exec_STA_def bounds_def Let_def)
next
  case (Inr m)
  assume b: "bounds s"
  have "list_all (\<lambda>v. 0 \<le> v \<and> v \<le> 255) m"
    using setitem_cells [OF Inr] b u8_range [of "A s"] by (simp add: bounds_def)
  with b Inr u4_range [of addr] show ?thesis by (simp add: exec_STA_def bounds_def Let_def)
qed

lemma bounds_exec_OUT: "bounds s \<Longrightarrow> bounds (snd (exec_OUT s))"
  using u8_range by (simp add: exec_OUT_def bounds_def)

lemma bounds_exec_HLT: "bounds s \<Longrightarrow> bounds (snd (exec_HLT s))"
  by (simp add: exec_HLT_def bounds_def)

lemma bounds_dispatch: "bounds s \<Longrightarrow> bounds (snd (dispatch opcode addr s))"
  using bounds_exec_LDA [of s addr] bounds_exec_ADD [of s addr] bounds_exec_SUB [of s addr]
    bounds_exec_STA [of s addr] bounds_exec_OUT [of s] bounds_exec_HLT [of s]
  by (simp add: dispatch_def split_beta)

lemma bounds_step: "bounds s \<Longrightarrow> bounds (snd (snd (step s)))"
proof -
  assume b: "bounds s"
  obtain p1 r1 s1 where f: "fetch_cycle s = (p1, r1, s1)" by (cases "fetch_cycle s")
  obtain p2 opcode addr s2 where d: "decode s1 = (p2, (opcode, addr), s2)"
    by (cases "decode s1") auto
  obtain r3 s3 where x: "dispatch opcode addr s2 = (r3, s3)" by (cases "dispatch opcode addr s2")
  have b1: "bounds s1" using bounds_fetch_cycle [OF b] f by simp
  have b2: "bounds s2" using bounds_decode [OF b1] d by simp
  have b3: "bounds s3" using bounds_dispatch [OF b2, of opcode addr] x by simp
  show ?thesis using b b1 b3 f d x by (simp add: step_def split: sum.splits)
qed

text \<open>
  Claim C2. From an object whose registers and memory cells are within their declared
  widths (\<open>A\<close>, \<open>B\<close>, \<open>OUT\<close>, \<open>IR\<close> and the cells in 0..255, \<open>PC\<close> and \<open>MAR\<close> in 0..15),
  \<open>reset\<close>, \<open>load_program\<close> and \<open>step\<close> each leave an object within the same widths.
  This holds for the object left behind by a raise as well, so in particular whenever
  \<open>step\<close> returns normally.
\<close>

theorem bounds_preserved:
  "bounds s \<Longrightarrow>
     bounds (reset s) \<and> bounds (snd (load_program pairs s)) \<and> bounds (snd (snd (step s)))"
  by (simp add: bounds_reset bounds_load_program bounds_step)

theorem bounds_preserved_witness:
  "(let s = SAP1_new\<lparr> memory := [0x21, 10] @ replicate 14 0, A := 250 \<rparr>
    in bounds s \<and> bounds (reset s) \<and> bounds (snd (load_program [(17, 300), (-1, -1)] s))
       \<and> bounds (snd (snd (step s))))"
proof -
  have "bounds (SAP1_new\<lparr> memory := [0x21, 10] @ replicate 14 0, A := 250 \<rparr>)"
    by (simp add: bounds_def SAP1_new_def list_all_iff)
  from this bounds_preserved [OF this, of "[(17, 300), (-1, -1)]"] show ?thesis
    by (simp add: Let_def)
qed

subsection \<open>Decoding\<close>

lemma mem_get:
  "length (memory s) = 16 \<Longrightarrow> getitem (memory s) (u4 x) = Inr (memory s ! nat (u4 x))"
  using u4_range [of x] by (simp add: getitem_ok)

lemma mem_set:
  "length (memory s) = 16 \<Longrightarrow> setitem (memory s) (u4 x) v = Inr ((memory s)[nat (u4 x) := v])"
  using u4_range [of x] by (simp add: setitem_ok)

lemma nibble_hi_mod: "0 \<le> x \<Longrightarrow> x \<le> 255 \<Longrightarrow> drop_bit 4 x mod 16 = x div (16::int)"
  using nibble_hi [of x] nibble_lo [of "drop_bit 4 x"] by simp

lemma fetch_decode:
  assumes "length (memory s) = 16"
  shows "\<exists>p1 s1 p2. fetch_cycle s = (p1, Inr (), s1) \<and>
           decode s1 = (p2, (IR (fetched s) div 16, IR (fetched s) mod 16), fetched s)"
  using mem_get [OF assms, of "PC s"] u8_range [of "memory s ! nat (u4 (PC s))"]
  by (simp add: fetch_cycle_def decode_def Let_def fetched_def nibble_hi_mod nibble_lo)

lemma step_running:
  assumes "\<not> halted s" "length (memory s) = 16"
  shows "snd (step s) =
    (case dispatch (IR (fetched s) div 16) (IR (fetched s) mod 16) (fetched s) of
       (Inl e, s3) \<Rightarrow> (Inl e, s3)
     | (Inr trace_msg, s3) \<Rightarrow>
         (Inr (if trace_instructions s3 then Some (trace_line s3 trace_msg) else None), s3))"
proof -
  from fetch_decode [OF assms(2)] obtain p1 s1 p2 where
    "fetch_cycle s = (p1, Inr (), s1)"
    "decode s1 = (p2, (IR (fetched s) div 16, IR (fetched s) mod 16), fetched s)" by blast
  with assms(1) show ?thesis by (simp add: step_def split: prod.splits sum.splits)
qed

lemma fetched_simps [simp]:
  "memory (fetched s) = memory s" "A (fetched s) = A s" "B (fetched s) = B s"
  "OUT (fetched s) = OUT s" "halted (fetched s) = halted s"
  "IR (fetched s) = u8 (memory s ! nat (u4 (PC s)))"
  "trace_instructions (fetched s) = trace_instructions s"
  by (simp_all add: fetched_def)

lemma dispatch_result:
  assumes "length (memory s) = 16"
  shows "if opcode \<in> {0x1, 0x2, 0x3, 0x4, 0xE, 0xF}
         then (\<exists>msg. fst (dispatch opcode addr s) = Inr msg)
         else dispatch opcode addr s = (Inl (ValueError_opcode opcode (IR s)), s)"
  using mem_get [OF assms, of addr] mem_set [OF assms, of addr]
  by (simp add: dispatch_def exec_LDA_def exec_ADD_def exec_SUB_def exec_STA_def exec_OUT_def
      exec_HLT_def Let_def)

text \<open>
  Claim C3. Let \<open>step\<close> run on an object that is not halted and has its 16 memory cells.
  The instruction byte fetched is \<open>ir = u8 (memory[u4 (PC)])\<close> and its high nibble is
  \<open>ir div 16\<close>. If the nibble is one of 0x1, 0x2, 0x3, 0x4, 0xE, 0xF, \<open>step\<close> returns
  normally; otherwise it raises the \<open>ValueError\<close> of the unknown opcode, which carries the
  nibble and the whole byte, and \<open>A\<close>, \<open>B\<close> and \<open>OUT\<close> are what they were before the call.
\<close>

theorem step_decode_error:
  "\<not> halted s \<Longrightarrow> length (memory s) = 16 \<Longrightarrow>
     (let ir = u8 (memory s ! nat (u4 (PC s))); opcode = ir div 16; (p, r, s') = step s
      in if opcode \<in> {0x1, 0x2, 0x3, 0x4, 0xE, 0xF}
         then (\<exists>v. r = Inr v)
         else r = Inl (ValueError_opcode opcode ir) \<and> A s' = A s \<and> B s' = B s \<and> OUT s' = OUT s)"
proof -
  assume a: "\<not> halted s" "length (memory s) = 16"
  let ?ir = "u8 (memory s ! nat (u4 (PC s)))"
  have len: "length (memory (fetched s)) = 16" using a by simp
  note d = dispatch_result [OF len, of "?ir div 16" "?ir mod 16"]
  note st = step_running [OF a]
  show ?thesis
  proof (cases "?ir div 16 \<in> {0x1, 0x2, 0x3, 0x4, 0xE, 0xF}")
    case True
    with d obtain msg where "fst (dispatch (?ir div 16) (?ir mod 16) (fetched s)) = Inr msg"
      by auto
    then obtain s3 where "dispatch (?ir div 16) (?ir mod 16) (fetched s) = (Inr msg, s3)"
      by (cases "dispatch (?ir div 16) (?ir mod 16) (fetched s)") auto
    with st have "fst (snd (step s)) = Inr (if trace_instructions s3 then Some (trace_line s3 msg) else None)"
      by simp
    with True show ?thesis by (simp add: Let_def split_beta)
  next
    case False
    with d have "dispatch (?ir div 16) (?ir mod 16) (fetched s) = (Inl (ValueError_opcode (?ir div 16) ?ir), fetched s)"
      by auto
    with st have "snd (step s) = (Inl (ValueError_opcode (?ir div 16) ?ir), fetched s)" by simp
    with False show ?thesis by (simp add: Let_def split_beta)
  qed
qed

theorem step_decode_error_witness:
  "(let s = SAP1_new\<lparr> memory := 0x5F # replicate 15 0, A := 7, B := 8, OUT := 9 \<rparr>; (p, r, s') = step s
    in \<not> halted s \<and> length (memory s) = 16 \<and> r = Inl (ValueError_opcode 5 0x5F) \<and> A s' = 7 \<and> B s' = 8 \<and> OUT s' = 9)
   \<and> (let s = SAP1_new\<lparr> memory := 0xE0 # replicate 15 0 \<rparr>; (p, r, s') = step s
    in \<not> halted s \<and> length (memory s) = 16 \<and> (\<exists>v. r = Inr v))"
  using step_decode_error [of "SAP1_new\<lparr> memory := 0x5F # replicate 15 0, A := 7, B := 8, OUT := 9 \<rparr>"]
    step_decode_error [of "SAP1_new\<lparr> memory := 0xE0 # replicate 15 0 \<rparr>"]
  by (simp add: SAP1_new_def u8_def u4_def split_beta)

subsection \<open>The tracing flags\<close>

lemma flags_fetch_cycle:
  "snd (fetch_cycle (set_flags ti tm s)) = map_prod id (set_flags ti tm) (snd (fetch_cycle s))"
  by (simp add: fetch_cycle_def Let_def split: sum.splits)

lemma flags_decode:
  "snd (decode (set_flags ti tm s)) = map_prod id (set_flags ti tm) (snd (decode s))"
  by (simp add: decode_def Let_def)

lemma flags_dispatch:
  "dispatch opcode addr (set_flags ti tm s) = map_prod id (set_flags ti tm) (dispatch opcode addr s)"
  by (simp add: dispatch_def exec_LDA_def exec_ADD_def exec_SUB_def exec_STA_def exec_OUT_def
      exec_HLT_def Let_def split: sum.splits)

lemma flags_step:
  "snd (snd (step (set_flags ti tm s))) = set_flags ti tm (snd (snd (step s)))"
  "outcome (fst (snd (step (set_flags ti tm s)))) = outcome (fst (snd (step s)))"
proof -
  obtain p1 r1 s1 where f: "fetch_cycle s = (p1, r1, s1)" by (cases "fetch_cycle s")
  obtain p2 opcode addr s2 where d: "decode s1 = (p2, (opcode, addr), s2)"
    by (cases "decode s1") auto
  obtain r3 s3 where x: "dispatch opcode addr s2 = (r3, s3)" by (cases "dispatch opcode addr s2")
  from f flags_fetch_cycle [where ti = ti and tm = tm and s = s] obtain q1 where
    f': "fetch_cycle (set_flags ti tm s) = (q1, r1, set_flags ti tm s1)"
    by (cases "fetch_cycle (set_flags ti tm s)") simp
  from d flags_decode [where ti = ti and tm = tm and s = s1] obtain q2 where
    d': "decode (set_flags ti tm s1) = (q2, (opcode, addr), set_flags ti tm s2)"
    by (cases "decode (set_flags ti tm s1)") simp
  from x flags_dispatch [where ti = ti and tm = tm and s = s2 and opcode = opcode and addr = addr] have
    x': "dispatch opcode addr (set_flags ti tm s2) = (r3, set_flags ti tm s3)" by simp
  show "snd (snd (step (set_flags ti tm s))) = set_flags ti tm (snd (snd (step s)))"
    using f d x f' d' x' by (simp add: step_def split: sum.splits)
  show "outcome (fst (snd (step (set_flags ti tm s)))) = outcome (fst (snd (step s)))"
    using f d x f' d' x' by (simp add: step_def outcome_def split: sum.splits)
qed

lemma same_machine_flags:
  "same_machine s1 s2 \<Longrightarrow> s2 = set_flags (trace_instructions s2) (trace_microsteps s2) s1"
  by (simp add: same_machine_def)

text \<open>
  Claim C9. If two objects agree on \<open>memory\<close>, \<open>A\<close>, \<open>B\<close>, \<open>OUT\<close>, \<open>IR\<close>, \<open>PC\<close>, \<open>MAR\<close>,
  \<open>halted\<close> and \<open>t_state\<close>, whatever their flags \<open>trace_instructions\<close> and
  \<open>trace_microsteps\<close> are, then after \<open>step\<close> they agree on all of these again, and \<open>step\<close>
  raises in both or in neither, with the same exception. (The flags change what is printed
  and returned, as the example after the theorem shows.)
\<close>

theorem trace_flags_do_not_affect_state:
  "same_machine s1 s2 \<Longrightarrow>
     same_machine (snd (snd (step s1))) (snd (snd (step s2))) \<and>
     outcome (fst (snd (step s1))) = outcome (fst (snd (step s2)))"
proof -
  assume "same_machine s1 s2"
  from same_machine_flags [OF this] obtain ti tm where s2: "s2 = set_flags ti tm s1" by blast
  show ?thesis unfolding s2 flags_step by (simp add: same_machine_def)
qed

theorem trace_flags_do_not_affect_state_witness:
  "(let s1 = SAP1_new\<lparr> memory := [0x21, 10] @ replicate 14 0, A := 250 \<rparr>;
        s2 = s1\<lparr> trace_instructions := False, trace_microsteps := True \<rparr>
    in same_machine s1 s2 \<and> fst (step s1) \<noteq> fst (step s2)
       \<and> fst (snd (step s1)) \<noteq> fst (snd (step s2))
       \<and> same_machine (snd (snd (step s1))) (snd (snd (step s2))))"
proof -
  let ?s1 = "SAP1_new\<lparr> memory := [0x21, 10] @ replicate 14 0, A := 250 \<rparr>"
  let ?s2 = "?s1\<lparr> trace_instructions := False, trace_microsteps := True \<rparr>"
  have h: "same_machine ?s1 ?s2" by (simp add: same_machine_def)
  have p: "fst (step ?s1) = []" "fst (step ?s2) \<noteq> []"
    "fst (snd (step ?s1)) \<noteq> Inr None" "fst (snd (step ?s2)) = Inr None" 
    by (simp_all add: step_def fetch_cycle_def decode_def dispatch_def exec_ADD_def SAP1_new_def
        getitem_def list_index_def u4_def u8_def Let_def)
  from h p trace_flags_do_not_affect_state [OF h] show ?thesis by (simp add: Let_def)
qed

subsection \<open>Halting\<close>

lemma halted_load_program: "halted (snd (load_program pairs s)) = halted s"
proof (induction pairs arbitrary: s)
  case Nil
  show ?case by simp
next
  case (Cons p pairs)
  obtain addr byte where p: "p = (addr, byte)" by (cases p)
  show ?case using Cons.IH [of "s\<lparr>memory := the_m\<rparr>" for the_m] p
    by (simp split: sum.splits)
qed

lemma step_halted: "halted s \<Longrightarrow> step s = ([], Inr None, s)"
  by (simp add: step_def)

lemma steps_halted: "halted s \<Longrightarrow> ((\<lambda>s. snd (snd (step s))) ^^ n) s = s"
  by (induction n) (simp_all add: step_halted)

lemma run_halted: "halted s \<Longrightarrow> run max_steps s = ([], Inr [], s)"
  by (simp add: run_def run_loop.simps)

lemma halted_private:
  assumes "halted s"
  shows "halted (snd (snd (fetch_cycle s)))" "halted (snd (snd (decode s)))"
    "halted (snd (exec_LDA addr s))" "halted (snd (exec_ADD addr s))"
    "halted (snd (exec_SUB addr s))" "halted (snd (exec_STA addr s))"
    "halted (snd (exec_OUT s))" "halted (snd (exec_HLT s))"
  using assms
  by (simp_all add: fetch_cycle_def decode_def exec_LDA_def exec_ADD_def exec_SUB_def
      exec_STA_def exec_OUT_def exec_HLT_def Let_def split: sum.splits)

lemma step_HLT:
  assumes "\<not> halted s" "length (memory s) = 16" "u8 (memory s ! nat (u4 (PC s))) div 16 = 0xF"
  shows "halted (snd (snd (step s))) \<and> (\<exists>v. fst (snd (step s)) = Inr v)"
  using step_running [OF assms(1,2)] assms(3)
  by (simp add: dispatch_def exec_HLT_def)

text \<open>
  Claim C5. A \<open>step\<close> that fetches a byte with the high nibble 0xF returns normally with
  \<open>halted\<close> set. On a halted object \<open>step\<close> prints nothing, returns \<open>None\<close> and leaves the
  object as it is, however often it is called; \<open>run\<close> does not step at all; and
  \<open>load_program\<close> and the private methods that \<open>step\<close> is made of keep \<open>halted\<close> set.
  \<open>reset\<close> clears \<open>halted\<close>: it is the only method that does.
\<close>

theorem halt_is_terminal:
  "(\<not> halted s \<and> length (memory s) = 16 \<and> u8 (memory s ! nat (u4 (PC s))) div 16 = 0xF
      \<longrightarrow> halted (snd (snd (step s))) \<and> (\<exists>v. fst (snd (step s)) = Inr v))
   \<and> (halted s \<longrightarrow>
         step s = ([], Inr None, s) \<and> ((\<lambda>s. snd (snd (step s))) ^^ n) s = s
         \<and> run max_steps s = ([], Inr [], s) \<and> halted (snd (load_program pairs s))
         \<and> halted (snd (snd (fetch_cycle s))) \<and> halted (snd (snd (decode s)))
         \<and> halted (snd (exec_LDA addr s)) \<and> halted (snd (exec_ADD addr s))
         \<and> halted (snd (exec_SUB addr s)) \<and> halted (snd (exec_STA addr s))
         \<and> halted (snd (exec_OUT s)) \<and> halted (snd (exec_HLT s)))
   \<and> \<not> halted (reset s)"
  using step_HLT [of s] step_halted [of s] steps_halted [of s n] run_halted [of s max_steps]
    halted_load_program [of pairs s]
  by (simp add: reset_def halted_private)

theorem halt_is_terminal_witness:
  "(let s = SAP1_new\<lparr> memory := 0xF3 # replicate 15 0 \<rparr>; h = snd (snd (step s))
    in \<not> halted s \<and> length (memory s) = 16 \<and> u8 (memory s ! nat (u4 (PC s))) div 16 = 0xF
       \<and> halted h \<and> step h = ([], Inr None, h) \<and> ((\<lambda>s. snd (snd (step s))) ^^ 5) h = h
       \<and> run 1000 h = ([], Inr [], h) \<and> halted (snd (load_program [(0, 0x10)] h))
       \<and> \<not> halted (reset h))"
proof -
  let ?s = "SAP1_new\<lparr> memory := 0xF3 # replicate 15 0 \<rparr>"
  have a: "\<not> halted ?s \<and> length (memory ?s) = 16 \<and> u8 (memory ?s ! nat (u4 (PC ?s))) div 16 = 0xF"
    by (simp add: SAP1_new_def u8_def u4_def)
  with halt_is_terminal [of ?s] have h: "halted (snd (snd (step ?s)))" by blast
  from a h halt_is_terminal [of "snd (snd (step ?s))" 5 1000 "[(0, 0x10)]" 0] show ?thesis
    by (simp add: Let_def)
qed

subsection \<open>Addition and subtraction\<close>

lemma exec_ADD_A:
  assumes "bounds s" "length (memory s) = 16"
  shows "exec_ADD addr s = (Inr (), s\<lparr> MAR := addr mod 16, B := memory s ! nat (addr mod 16), A := (A s + memory s ! nat (addr mod 16)) mod 256, t_state := 0 \<rparr>)"
proof -
  have "nat (addr mod 16) < length (memory s)" using assms(2) by simp
  with assms(1) have c: "0 \<le> memory s ! nat (addr mod 16) \<and> memory s ! nat (addr mod 16) \<le> 255"
    by (simp add: bounds_def list_all_length)
  with mem_get [OF assms(2), of addr] show ?thesis
    by (simp add: exec_ADD_def Let_def u4_mod u8_mod)
qed

lemma exec_SUB_A:
  assumes "bounds s" "length (memory s) = 16"
  shows "exec_SUB addr s = (Inr (), s\<lparr> MAR := addr mod 16, B := memory s ! nat (addr mod 16), A := (A s - memory s ! nat (addr mod 16)) mod 256, t_state := 0 \<rparr>)"
proof -
  have "nat (addr mod 16) < length (memory s)" using assms(2) by simp
  with assms(1) have c: "0 \<le> memory s ! nat (addr mod 16) \<and> memory s ! nat (addr mod 16) \<le> 255"
    by (simp add: bounds_def list_all_length)
  with mem_get [OF assms(2), of addr] show ?thesis
    by (simp add: exec_SUB_def Let_def u4_mod u8_mod)
qed

lemma bounds_fetched: "bounds s \<Longrightarrow> bounds (fetched s)"
  using u4_range [of "PC s"] u4_range [of "PC s + 1"] u8_range [of "memory s ! nat (u4 (PC s))"]
  by (simp add: bounds_def fetched_def)

lemma step_ADD_SUB:
  assumes "bounds s" "length (memory s) = 16" "\<not> halted s" "0 \<le> addr" "addr < 16"
    and "memory s ! nat (PC s) = op * 16 + addr" "op = 2 \<or> op = 3"
  shows "fst (snd (step s)) \<noteq> Inl e \<and>
         A (snd (snd (step s))) = (if op = 2 then A s + memory s ! nat addr else A s - memory s ! nat addr) mod 256"
proof -
  have pc: "u4 (PC s) = PC s" using assms(1) by (simp add: u4_mod bounds_def)
  have ir: "IR (fetched s) = op * 16 + addr" using assms(4-7) pc by (auto simp: u8_mod)
  have dm: "IR (fetched s) div 16 = op" "IR (fetched s) mod 16 = addr"
    unfolding ir using assms(4,5) by simp_all
  have am: "addr mod 16 = addr" using assms(4,5) by simp
  note b = bounds_fetched [OF assms(1)]
  have l: "length (memory (fetched s)) = 16" using assms(2) by simp
  show ?thesis
    using step_running [OF assms(3,2)] assms(7)
    unfolding dm
    by (auto simp: dispatch_def exec_ADD_A [OF b l] exec_SUB_A [OF b l] am)
qed

text \<open>
  Claim C6. On an object within its widths and with its 16 cells, for an address field
  \<open>addr\<close> in 0..15: \<open>_exec_ADD(addr)\<close> returns normally with
  \<open>A = (A + memory[addr mod 16]) mod 256\<close>, and \<open>_exec_SUB(addr)\<close> with
  \<open>A = (A - memory[addr mod 16]) mod 256\<close>; the same holds for a \<open>step\<close> that fetches the
  byte \<open>0x20 + addr\<close> or \<open>0x30 + addr\<close>. No exception is raised on overflow or underflow.
\<close>

theorem add_sub_wrap:
  "bounds s \<Longrightarrow> length (memory s) = 16 \<Longrightarrow> 0 \<le> addr \<Longrightarrow> addr < 16 \<Longrightarrow>
     fst (exec_ADD addr s) = Inr () \<and>
     A (snd (exec_ADD addr s)) = (A s + memory s ! nat (addr mod 16)) mod 256 \<and>
     fst (exec_SUB addr s) = Inr () \<and>
     A (snd (exec_SUB addr s)) = (A s - memory s ! nat (addr mod 16)) mod 256 \<and>
     (\<not> halted s \<and> memory s ! nat (PC s) = 0x20 + addr \<longrightarrow>
        (\<exists>v. fst (snd (step s)) = Inr v) \<and>
        A (snd (snd (step s))) = (A s + memory s ! nat (addr mod 16)) mod 256) \<and>
     (\<not> halted s \<and> memory s ! nat (PC s) = 0x30 + addr \<longrightarrow>
        (\<exists>v. fst (snd (step s)) = Inr v) \<and>
        A (snd (snd (step s))) = (A s - memory s ! nat (addr mod 16)) mod 256)"
proof -
  assume a: "bounds s" "length (memory s) = 16" "0 \<le> addr" "addr < 16"
  have am: "addr mod 16 = addr" using a(3,4) by simp
  have r: "(\<forall>e. x \<noteq> Inl e) \<Longrightarrow> \<exists>v. x = Inr v" for x :: "error + string option"
    by (cases x) auto
  show ?thesis
    using step_ADD_SUB [OF a(1,2) _ a(3,4), of 2] step_ADD_SUB [OF a(1,2) _ a(3,4), of 3]
    by (auto simp: exec_ADD_A [OF a(1,2)] exec_SUB_A [OF a(1,2)] am intro!: r)
qed

theorem add_sub_wrap_witness:
  "(let s = SAP1_new\<lparr> memory := [0x21, 10] @ replicate 14 0, A := 250 \<rparr>
    in bounds s \<and> length (memory s) = 16 \<and> memory s ! 1 = 10
       \<and> exec_ADD 1 s = (Inr (), s\<lparr> MAR := 1, B := 10, A := 4, t_state := 0 \<rparr>)
       \<and> A (snd (snd (step s))) = 4)
   \<and> (let s = SAP1_new\<lparr> memory := [0x31, 5] @ replicate 14 0, A := 3 \<rparr>
    in bounds s \<and> length (memory s) = 16 \<and> memory s ! 1 = 5
       \<and> A (snd (exec_SUB 1 s)) = 254
       \<and> A (snd (snd (step s))) = 254)"
proof -
  let ?s = "SAP1_new\<lparr> memory := [0x21, 10] @ replicate 14 0, A := 250 \<rparr>"
  let ?t = "SAP1_new\<lparr> memory := [0x31, 5] @ replicate 14 0, A := 3 \<rparr>"
  have b: "bounds ?s" "bounds ?t" by (simp_all add: bounds_def SAP1_new_def list_all_iff)
  have l: "length (memory ?s) = 16" "length (memory ?t) = 16" by simp_all
  have e: "exec_ADD 1 ?s = (Inr (), ?s\<lparr> MAR := 1, B := 10, A := 4, t_state := 0 \<rparr>)"
    by (simp add: exec_ADD_def SAP1_new_def getitem_def list_index_def u4_def u8_def Let_def)
  from b l e add_sub_wrap [OF b(1) l(1), of 1] add_sub_wrap [OF b(2) l(2), of 1]
  show ?thesis by (simp add: Let_def SAP1_new_def)
qed

section \<open>Properties of the assembler\<close>

text \<open>
  Claim C1. The claim is that assembling the demo program succeeds and that running its
  bytes leaves \<open>OUT = 12\<close>. The assembler takes a line for a label only if the line ends
  with a colon, so on the line \<open>a: .byte 5\<close> it reads \<open>a:\<close> as a mnemonic and raises
  \<open>AsmError\<close>: \<open>assemble\<close> fails on the list of \<open>demo_program_sta\<close>, and so does
  \<open>demo_program_sta\<close> itself, and the spelling \<open>a:.BYTE 5\<close> fails in the same way.
\<close>

theorem demo_program_fails:
  "assemble demo_asm = Inl (AsmError ''Unknown directive or mnemonic: A:'') \<and>
   demo_program_sta = Inl (AsmError ''Unknown directive or mnemonic: A:'') \<and>
   assemble compact_asm = Inl (AsmError ''Unknown directive or mnemonic: A:.BYTE'')"
  by code_simp

text \<open>With each label on a line of its own the program assembles, and its bytes run to
  \<open>HLT\<close> with \<open>OUT = 12\<close>.\<close>

lemma separate_labels_work:
  "assemble separate_asm = Inr [0x16, 0x27, 0x48, 0x18, 0xE0, 0xF0, 5, 7, 0] \<and>
   fst (run_code [0x16, 0x27, 0x48, 0x18, 0xE0, 0xF0, 5, 7, 0]) \<noteq> Inl e \<and>
   halted (snd (run_code [0x16, 0x27, 0x48, 0x18, 0xE0, 0xF0, 5, 7, 0])) \<and>
   OUT (snd (run_code [0x16, 0x27, 0x48, 0x18, 0xE0, 0xF0, 5, 7, 0])) = 12"
  by code_simp

subsection \<open>Operands\<close>

lemma encode_append:
  "encode labels (pre @ rest) out =
     (case encode labels pre out of Inl e \<Rightarrow> Inl e | Inr out' \<Rightarrow> encode labels rest out')"
  by (induction labels pre out rule: encode.induct) (auto split: option.splits sum.splits)

lemma py_int_error: "py_int base tok = Inl e \<Longrightarrow> e = ValueError_literal tok"
  by (auto simp: py_int_def Let_def split: option.splits if_splits)

text \<open>
  Claim C7, as stated, fails. On the line \<open>lda foo\<close> the leading token is the mnemonic
  \<open>LDA\<close>, which takes an operand; \<open>foo\<close> is not a label and \<open>int("foo", 0)\<close> raises; and
  \<open>assemble\<close> ends with that \<open>ValueError\<close>, which is not an \<open>AsmError\<close>.
\<close>

theorem bad_operand_counterexample:
  "upper ''lda'' = ''LDA'' \<and> OPCODES ''LDA'' = Some 1 \<and>
   (case layout (cleaned [''lda foo'']) Map.empty 0 [] of
      Inl _ \<Rightarrow> False
    | Inr (labels, items) \<Rightarrow> labels ''foo'' = None \<and> items = [(''LDA'', Some ''foo'')]) \<and>
   py_int 0 ''foo'' = Inl (ValueError_literal ''foo'') \<and>
   assemble [''lda foo''] = Inl (ValueError_literal ''foo'') \<and>
   \<not> is_AsmError (assemble [''lda foo''])"
  by code_simp

text \<open>
  Claim C7, amended. Let the layout loop succeed on the lines, and let an item with the
  mnemonic \<open>LDA\<close>, \<open>ADD\<close>, \<open>SUB\<close> or \<open>STA\<close> have an operand token that is neither a label
  nor accepted by \<open>int(tok, 0)\<close>, while the items before it encode. Then \<open>assemble\<close>
  fails with the \<open>ValueError\<close> that \<open>int\<close> raises for the token, not with an \<open>AsmError\<close>.
\<close>

theorem bad_operand_raises_ValueError:
  "layout (cleaned lines) Map.empty 0 [] = Inr (labels, items) \<Longrightarrow>
   items = pre @ (mnemonic, Some tok) # post \<Longrightarrow>
   encode labels pre [] = Inr out \<Longrightarrow>
   mnemonic \<in> {''LDA'', ''ADD'', ''SUB'', ''STA''} \<Longrightarrow>
   labels tok = None \<Longrightarrow>
   py_int 0 tok = Inl e \<Longrightarrow>
   assemble lines = Inl (ValueError_literal tok) \<and> \<not> is_AsmError (assemble lines)"
proof -
  assume l: "layout (cleaned lines) Map.empty 0 [] = Inr (labels, items)"
    and i: "items = pre @ (mnemonic, Some tok) # post"
    and p: "encode labels pre [] = Inr out"
    and m: "mnemonic \<in> {''LDA'', ''ADD'', ''SUB'', ''STA''}"
    and t: "labels tok = None" "py_int 0 tok = Inl e"
  have e: "e = ValueError_literal tok" using t(2) by (rule py_int_error)
  have "encode labels ((mnemonic, Some tok) # post) out = Inl (ValueError_literal tok)"
    using m t e by (auto simp: OPCODES_def parse_addr_def)
  with p have "encode labels items [] = Inl (ValueError_literal tok)"
    unfolding i encode_append by simp
  with l show ?thesis by (simp add: assemble_def is_AsmError_def)
qed

theorem bad_operand_raises_ValueError_witness:
  "assemble [''LDA 1'', ''x:'', ''ADD foo'', ''HLT''] = Inl (ValueError_literal ''foo'') \<and>
   \<not> is_AsmError (assemble [''LDA 1'', ''x:'', ''ADD foo'', ''HLT''])"
proof -
  have l: "layout (cleaned [''LDA 1'', ''x:'', ''ADD foo'', ''HLT'']) Map.empty 0 [] =
     Inr ([''x'' \<mapsto> 1], [(''LDA'', Some ''1''), (''ADD'', Some ''foo''), (''HLT'', None)])"
    by (simp add: cleaned_def strip_def split_first_def isspace_def endswith_char_def split_ws_def
        replace_char_def upper_def upper_char_def OPCODES_def)
  have i: "[(''LDA'', Some ''1''), (''ADD'', Some ''foo''), (''HLT'', None)] =
     [(''LDA'', Some ''1'')] @ (''ADD'', Some ''foo'') # [(''HLT'', None)]" by simp
  have p: "encode [''x'' \<mapsto> 1] [(''LDA'', Some ''1'')] [] = Inr [0x11]"
    by (simp add: OPCODES_def parse_addr_def py_int_def strip_def isspace_def prefix_base_def
        digit_val_def Let_def)
  have m: "''ADD'' \<in> {''LDA'', ''ADD'', ''SUB'', ''STA''}" by simp
  have t: "[''x'' \<mapsto> (1::int)] ''foo'' = None" by simp
  have v: "py_int 0 ''foo'' = Inl (ValueError_literal ''foo'')" by code_simp
  from bad_operand_raises_ValueError [OF l i p m t v] show ?thesis .
qed

section \<open>Properties of the toy compiler and the playground VM\<close>

text \<open>
  Claim C4. \<open>compile_toy\<close> succeeds on the source \<open>a=5;b=7;c=a+b;print c;\<close>, and \<open>run\<close>
  of \<open>sap1_playground.py\<close> on the assembly text it returns prints \<open>OUT = 12\<close> and
  returns the output \<open>[12]\<close>.
\<close>

theorem toy_scenario:
  "compile_toy ''a=5;b=7;c=a+b;print c;'' =
     Inr ''    LDA #5\<newline>    STA 14\<newline>    LDA #7\<newline>    STA 13\<newline>    LDA 14\<newline>    ADD 13\<newline>    STA 12\<newline>    LDA 12\<newline>    OUT\<newline>    HLT'' \<and>
   playground_run ''    LDA #5\<newline>    STA 14\<newline>    LDA #7\<newline>    STA 13\<newline>    LDA 14\<newline>    ADD 13\<newline>    STA 12\<newline>    LDA 12\<newline>    OUT\<newline>    HLT''
     = ([''OUT = 12''], Inr [12])"
  by code_simp

subsection \<open>Undefined variables\<close>

lemma compile_lines_append:
  "compile_lines (pre @ rest) st =
     (case compile_lines pre st of Inl e \<Rightarrow> Inl e | Inr st' \<Rightarrow> compile_lines rest st')"
  by (induction pre arbitrary: st) (auto split: sum.splits)

lemma compile_line_print_undefined:
  "startswith ''print'' line \<Longrightarrow> split_ws line = w # var # ws \<Longrightarrow> variables var = None \<Longrightarrow>
     compile_line line (assembly, variables, mem_ptr) = Inl (KeyError var)"
  by (simp add: compile_line_def)

text \<open>
  Claim C8, as stated, fails. The source \<open>c=a+b;print x;\<close> consists of an addition and a
  \<open>print\<close>, both statements of the toy language, and its \<open>print\<close> names \<open>x\<close>, which no
  statement assigns. \<open>compile_toy\<close> stops at the first statement, where \<open>variables[a]\<close>
  raises: the \<open>KeyError\<close> names \<open>a\<close>, and the \<open>print\<close> of \<open>x\<close> is never reached.
\<close>

theorem print_undefined_counterexample:
  "statements ''c=a+b;print x;'' = [''c=a+b'', ''print x''] \<and>
   startswith ''print'' ''print x'' \<and> split_ws ''print x'' = [''print'', ''x''] \<and>
   compile_toy ''c=a+b;print x;'' = Inl (KeyError ''a'') \<and>
   compile_toy ''c=a+b;print x;'' \<noteq> Inl (KeyError ''x'')"
  by code_simp

text \<open>
  Claim C8, amended. If the statements before a statement that starts with \<open>print\<close>
  compile without an exception, and the second word of that statement is not a key of
  \<open>variables\<close> then, \<open>compile_toy\<close> fails with \<open>KeyError\<close> for that word: the undefined
  variable is named. In particular \<open>print x;\<close> fails with \<open>KeyError('x')\<close>.
\<close>

theorem print_undefined_variable:
  "statements source = pre @ line # post \<Longrightarrow>
   compile_lines pre ([], Map.empty, 0x0E) = Inr (assembly, variables, mem_ptr) \<Longrightarrow>
   startswith ''print'' line \<Longrightarrow>
   split_ws line = w # var # ws \<Longrightarrow>
   variables var = None \<Longrightarrow>
   compile_toy source = Inl (KeyError var)"
proof -
  assume s: "statements source = pre @ line # post"
    and p: "compile_lines pre ([], Map.empty, 0x0E) = Inr (assembly, variables, mem_ptr)"
    and l: "startswith ''print'' line" "split_ws line = w # var # ws" "variables var = None"
  have "compile_lines (line # post) (assembly, variables, mem_ptr) = Inl (KeyError var)"
    using l by (simp add: compile_line_def)
  with p have "compile_lines (statements source) ([], Map.empty, 0x0E) = Inl (KeyError var)"
    unfolding s compile_lines_append by simp
  then show ?thesis by (simp add: compile_toy_def)
qed

theorem print_undefined_variable_witness:
  "compile_toy ''print x;'' = Inl (KeyError ''x'') \<and>
   compile_toy ''a=5;print x;b=1'' = Inl (KeyError ''x'')"
proof -
  have s1: "statements ''print x;'' = [] @ ''print x'' # []" by code_simp
  have p1: "compile_lines [] ([], Map.empty, 0x0E) = Inr ([], Map.empty, 0x0E)" by simp
  have l: "startswith ''print'' ''print x''" "split_ws ''print x'' = ''print'' # ''x'' # []"
    by code_simp+
  have v1: "(Map.empty :: string \<rightharpoonup> int) ''x'' = None" by simp
  have s2: "statements ''a=5;print x;b=1'' = [''a=5''] @ ''print x'' # [''b=1'']" by code_simp
  have p2: "compile_lines [''a=5''] ([], Map.empty, 0x0E)
              = Inr ([''    LDA #5'', ''    STA 14''], [''a'' \<mapsto> 14], 13)"
    by (simp add: compile_line_def startswith_def split_on_def strip_def isspace_def isdigit_def
        str_int_def dec_digits.simps dec_char_def)
  have v2: "[''a'' \<mapsto> (14::int)] ''x'' = None" by simp
  from print_undefined_variable [OF s1 p1 l v1] print_undefined_variable [OF s2 p2 l v2]
  show ?thesis by simp
qed

subsection \<open>Termination of the playground VM\<close>

lemma loop_body_pc: "loop_body code st = Next st' \<Longrightarrow> vm_pc st' = vm_pc st + 1"
  by (auto simp: loop_body_def with_arg_def split: prod.splits if_splits option.splits sum.splits)

lemma exec_fuel_enough:
  "length code - vm_pc st \<le> n \<Longrightarrow> exec_fuel n code st = Some (exec_loop code st)"
proof (induction n arbitrary: st)
  case 0
  then show ?case by (simp add: exec_loop.simps)
next
  case (Suc n)
  show ?case
  proof (cases "vm_pc st < length code")
    case False
    then show ?thesis by (simp add: exec_loop.simps)
  next
    case True
    show ?thesis
    proof (cases "loop_body code st")
      case (Next st')
      from loop_body_pc [OF Next] Suc.prems have "length code - vm_pc st' \<le> n" by simp
      from Suc.IH [OF this] True Next show ?thesis by (simp add: exec_loop.simps [of code st])
    next
      case (Break st')
      with True show ?thesis by (simp add: exec_loop.simps [of code st])
    next
      case (Raise e st')
      with True show ?thesis by (simp add: exec_loop.simps [of code st])
    qed
  qed
qed

text \<open>
  Claim C10. A pass through the loop body that stays in the loop increments \<open>pc\<close> by
  exactly 1. For every assembly text, either the parsing loop raises, or it yields
  \<open>code\<close> and the \<open>while\<close> loop started on the new VM ends within \<open>len(code)\<close> passes
  through its body, with the result that \<open>run\<close> returns; no \<open>HLT\<close> is needed for that.
\<close>

theorem playground_run_terminates:
  "(loop_body code st = Next st' \<longrightarrow> vm_pc st' = vm_pc st + 1) \<and>
   (case parse_lines (splitlines assembly) [] of
      Inl e \<Rightarrow> playground_run assembly = ([], Inl e)
    | Inr c \<Rightarrow> (\<exists>r. exec_fuel (length c) c vm_new = Some r \<and> playground_run assembly = finish r))"
  using exec_fuel_enough [of _ vm_new]
  by (auto simp: loop_body_pc playground_run_def split: sum.splits)

theorem playground_run_terminates_witness:
  "loop_body [(''OUT'', None), (''OUT'', None)] vm_new
     = Next (vm_new\<lparr> vm_printed := [''OUT = 0''], vm_output := [0], vm_pc := 1 \<rparr>) \<and>
   vm_pc (vm_new\<lparr> vm_printed := [''OUT = 0''], vm_output := [0], vm_pc := 1 \<rparr>) = vm_pc vm_new + 1 \<and>
   parse_lines (splitlines ''OUT\<newline>OUT'') [] = Inr [(''OUT'', None), (''OUT'', None)] \<and>
   (\<exists>r. exec_fuel (length [(''OUT'', None :: int option), (''OUT'', None)])
          [(''OUT'', None), (''OUT'', None)] vm_new = Some r \<and>
        playground_run ''OUT\<newline>OUT'' = finish r) \<and>
   playground_run ''OUT\<newline>OUT'' = ([''OUT = 0'', ''OUT = 0''], Inr [0, 0])"
proof -
  have b: "loop_body [(''OUT'', None), (''OUT'', None)] vm_new
     = Next (vm_new\<lparr> vm_printed := [''OUT = 0''], vm_output := [0], vm_pc := 1 \<rparr>)"
    by (simp add: loop_body_def vm_new_def str_int_def dec_digits.simps dec_char_def)
  have p: "parse_lines (splitlines ''OUT\<newline>OUT'') [] = Inr [(''OUT'', None), (''OUT'', None)]"
    by code_simp
  have r: "playground_run ''OUT\<newline>OUT'' = ([''OUT = 0'', ''OUT = 0''], Inr [0, 0])"
    by code_simp
  note t = playground_run_terminates [of "[(''OUT'', None), (''OUT'', None)]" vm_new
      "vm_new\<lparr> vm_printed := [''OUT = 0''], vm_output := [0], vm_pc := 1 \<rparr>" "''OUT\<newline>OUT''"]
  from t b have t1:
    "vm_pc (vm_new\<lparr> vm_printed := [''OUT = 0''], vm_output := [0], vm_pc := 1 \<rparr>) = vm_pc vm_new + 1"
    by blast
  from t [THEN conjunct2] have t2:
    "\<exists>r. exec_fuel (length [(''OUT'', None :: int option), (''OUT'', None)])
          [(''OUT'', None), (''OUT'', None)] vm_new = Some r \<and>
        playground_run ''OUT\<newline>OUT'' = finish r"
    by (simp only: p sum.case)
  from b t1 p t2 r show ?thesis by blast
qed

end
